theory Spec2Isabelle
  imports Main "HOL-Library.Word" "HOL-Library.Signed_Division"
begin

unbundle bit_operations_syntax

section \<open>The generator of snowflake.go\<close>

text \<open>
  A shallow embedding of \<^verbatim>\<open>snowflake.go\<close>. Go's \<^verbatim>\<open>int64\<close>, \<^verbatim>\<open>uint64\<close> and
  \<^verbatim>\<open>uint16\<close> are words of that width: \<open>+\<close> and \<open>-\<close> wrap, \<open><s\<close> and \<open>\<le>s\<close> compare
  two's complement values, \<open><\<close> and \<open>\<le>\<close> compare unsigned values. Go's \<^verbatim>\<open>int\<close> is
  taken at its 64-bit width.

  A \<^verbatim>\<open>time.Time\<close> holds a wall-clock instant, here the number of nanoseconds between
  the Unix epoch and the instant as an unbounded integer, and optionally a reading of
  the process's monotonic clock, in nanoseconds. A value returned by \<^verbatim>\<open>time.Now()\<close>
  carries both; \<^verbatim>\<open>time.Date\<close>, \<^verbatim>\<open>time.Unix\<close> and the zero value \<^verbatim>\<open>time.Time{}\<close> carry
  no monotonic reading. The value of \<^verbatim>\<open>time.Now()\<close> is an argument of the function that
  reads it. The package variable \<^verbatim>\<open>epochStart\<close> is threaded through
  \<open>NewSnowflake\<close>: its value before the call is an argument, its value after the call is
  the second component of the result. The mutex serialises the calls of \<^verbatim>\<open>NextID\<close>; a
  sequence of calls in lock-acquisition order is a list of clock readings.
\<close>

type_synonym int64 = "64 word"
type_synonym uint64 = "64 word"
type_synonym uint16 = "16 word"

record Time =
  wallNanos :: int
  monotonic :: "int option"

definition EpochBits :: nat where
  "EpochBits = 42"

definition MachineIDBits :: nat where
  "MachineIDBits = 10"

definition SequenceBits :: nat where
  "SequenceBits = 12"

definition maxNodeID :: int64 where
  "maxNodeID = push_bit MachineIDBits 1 - 1"

record Snowflake =
  StartTime :: int64
  MachineID :: uint64
  Sequence :: uint16
  lastTimestamp :: int64

definition snowflakeTimeUnit :: int64 where
  "snowflakeTimeUnit = 1000000"

text \<open>\<^verbatim>\<open>time.Date(2019, 4, 1, 0, 0, 0, 0, time.UTC)\<close>, the initial value of \<^verbatim>\<open>epochStart\<close>.\<close>

definition defaultEpochStart :: Time where
  "defaultEpochStart = \<lparr>wallNanos = 1554076800 * 1000000000, monotonic = None\<rparr>"

text \<open>The zero \<^verbatim>\<open>time.Time{}\<close>: 1 January of year 1, 00:00:00 UTC.\<close>

definition zeroTime :: Time where
  "zeroTime = \<lparr>wallNanos = - 62135596800 * 1000000000, monotonic = None\<rparr>"

text \<open>\<^verbatim>\<open>time.Unix(sec, nsec)\<close>: a wall-clock instant without a monotonic reading.\<close>

definition Unix :: "int \<Rightarrow> int \<Rightarrow> Time" where
  "Unix sec nsec = \<lparr>wallNanos = sec * 1000000000 + nsec, monotonic = None\<rparr>"

text \<open>
  \<open>Now w m\<close>: what \<^verbatim>\<open>time.Now()\<close> returns when the wall clock reads \<open>w\<close> nanoseconds
  after the Unix epoch and the monotonic clock reads \<open>m\<close> nanoseconds.
\<close>

definition Now :: "int \<Rightarrow> int \<Rightarrow> Time" where
  "Now w m = \<lparr>wallNanos = w, monotonic = Some m\<rparr>"

text \<open>\<^verbatim>\<open>IsZero\<close> reads the wall-clock instant only.\<close>

definition IsZero :: "Time \<Rightarrow> bool" where
  "IsZero t = (wallNanos t = wallNanos zeroTime)"

text \<open>
  \<^verbatim>\<open>t.After(u)\<close> of the standard library: when both \<open>t\<close> and \<open>u\<close> carry a monotonic
  reading, the readings alone are compared and the wall-clock instants are ignored;
  otherwise the wall-clock instants are compared.
\<close>

definition After :: "Time \<Rightarrow> Time \<Rightarrow> bool" where
  "After t u =
     (case (monotonic t, monotonic u) of
        (Some mt, Some mu) \<Rightarrow> mu < mt
      | _ \<Rightarrow> wallNanos u < wallNanos t)"

text \<open>
  \<^verbatim>\<open>UnixNano\<close> reads the wall-clock instant only and computes in \<^verbatim>\<open>int64\<close>, so an
  instant out of range wraps.
\<close>

definition UnixNano :: "Time \<Rightarrow> int64" where
  "UnixNano t = word_of_int (wallNanos t)"

text \<open>Go's \<^verbatim>\<open>/\<close> on \<^verbatim>\<open>int64\<close> truncates towards zero.\<close>

definition div64 :: "int64 \<Rightarrow> int64 \<Rightarrow> int64" where
  "div64 a b = word_of_int (sint a sdiv sint b)"

definition timeToSnowflakeUnit :: "Time \<Rightarrow> int64" where
  "timeToSnowflakeUnit t = div64 (UnixNano t) snowflakeTimeUnit"

definition elapsedTime :: "Time \<Rightarrow> int64 \<Rightarrow> int64" where
  "elapsedTime now startTime = timeToSnowflakeUnit now - startTime"

text \<open>
  \<open>NewSnowflake epochStart now starttime machineID\<close>, where \<open>now\<close> is the value of
  \<^verbatim>\<open>time.Now()\<close>: \<open>None\<close> is the \<^verbatim>\<open>nil\<close> pointer.
  A fresh struct has \<^verbatim>\<open>Sequence\<close> and \<^verbatim>\<open>lastTimestamp\<close> zero.
\<close>

definition NewSnowflake ::
  "Time \<Rightarrow> Time \<Rightarrow> Time \<Rightarrow> int64 \<Rightarrow> Snowflake option \<times> Time" where
  "NewSnowflake epochStart now starttime machineID =
     (if After starttime now then (None, epochStart)
      else
        let (st, epochStart') =
              (if IsZero starttime then (timeToSnowflakeUnit epochStart, epochStart)
               else (timeToSnowflakeUnit starttime, starttime))
        in (Some \<lparr>StartTime = st, MachineID = machineID AND maxNodeID,
                   Sequence = 0, lastTimestamp = 0\<rparr>, epochStart'))"

datatype error = MaxSequencePanic | MaxTimestampReached

text \<open>
  The update of \<^verbatim>\<open>lastTimestamp\<close> and \<^verbatim>\<open>Sequence\<close> at the head of \<^verbatim>\<open>NextID\<close>.
  \<^verbatim>\<open>time.Sleep\<close> only delays the caller and writes no field, so it has no counterpart here.
\<close>

definition advance :: "Time \<Rightarrow> Snowflake \<Rightarrow> Snowflake" where
  "advance now sf =
     (let currentTimestamp = elapsedTime now (StartTime sf)
      in if lastTimestamp sf <s currentTimestamp
         then sf\<lparr>lastTimestamp := currentTimestamp, Sequence := 0\<rparr>
         else
           let sf1 = sf\<lparr>Sequence := (Sequence sf + 1) AND (push_bit SequenceBits 1 - 1)\<rparr>
           in if Sequence sf1 = 0 then sf1\<lparr>lastTimestamp := lastTimestamp sf1 + 1\<rparr> else sf1)"

text \<open>The three fields shifted into place and joined.\<close>

definition pack :: "Snowflake \<Rightarrow> uint64" where
  "pack sf = push_bit (MachineIDBits + SequenceBits) (lastTimestamp sf)
               OR push_bit SequenceBits (MachineID sf)
               OR ucast (Sequence sf)"

text \<open>
  \<open>NextID now sf\<close> returns the generator after the call and either the identifier or the
  way the call failed: the panic, or the error value (which Go returns beside the
  identifier 0).
\<close>

definition NextID :: "Time \<Rightarrow> Snowflake \<Rightarrow> Snowflake \<times> (error + uint64)" where
  "NextID now sf =
     (let sf1 = advance now sf
      in if push_bit SequenceBits 1 - 1 < Sequence sf1 then (sf1, Inl MaxSequencePanic)
         else if push_bit EpochBits 1 \<le>s lastTimestamp sf1 then (sf1, Inl MaxTimestampReached)
         else (sf1, Inr (pack sf1)))"

definition DecomposeParts :: "uint64 \<Rightarrow> uint64 \<times> uint64 \<times> uint64" where
  "DecomposeParts ident =
     (let maskMachineID = push_bit SequenceBits (push_bit MachineIDBits 1 - 1);
          maskSequence = push_bit SequenceBits 1 - 1;
          t = drop_bit (MachineIDBits + SequenceBits) ident;
          mid = drop_bit SequenceBits (ident AND maskMachineID);
          seq = ident AND maskSequence
      in (t, mid, seq))"

subsection \<open>Successive calls\<close>

text \<open>
  \<open>run sf nows\<close> calls \<open>NextID\<close> once for each clock reading, in order, on the same
  generator, and collects what the calls return.
\<close>

primrec run :: "Snowflake \<Rightarrow> Time list \<Rightarrow> Snowflake \<times> (error + uint64) list" where
  "run sf [] = (sf, [])"
| "run sf (now # nows) =
     (case NextID now sf of (sf1, r) \<Rightarrow>
        case run sf1 nows of (sf2, rs) \<Rightarrow> (sf2, r # rs))"

fun successes :: "(error + uint64) list \<Rightarrow> uint64 list" where
  "successes [] = []"
| "successes (Inl e # rs) = successes rs"
| "successes (Inr i # rs) = i # successes rs"

subsection \<open>The update in the words of the specification\<close>

text \<open>
  The specification's update of \<open>(lastTick, sequence)\<close> for a current tick, on unbounded
  integers: adopt a later tick and reset the sequence, otherwise count modulo
  \<open>2 ^ SequenceBits\<close> and move one tick on when the count wraps.
\<close>

definition spec_advance :: "int \<Rightarrow> int \<times> nat \<Rightarrow> int \<times> nat" where
  "spec_advance currentTick st =
     (let lastTick = fst st; sequence = snd st
      in if lastTick < currentTick then (currentTick, 0)
         else
           let sequence' = (sequence + 1) mod 2 ^ SequenceBits
           in if sequence' = 0 then (lastTick + 1, sequence') else (lastTick, sequence'))"

subsection \<open>Generators built by the constructor\<close>

text \<open>
  No \<^verbatim>\<open>int64\<close> holds more milliseconds than \<open>tickBound\<close>, the largest nanosecond
  count divided by the time unit.
\<close>

definition tickBound :: int where
  "tickBound = 9223372036854"

text \<open>
  What holds of a generator \<open>n\<close> calls of \<open>NextID\<close> after \<open>NewSnowflake\<close> built it:
  the epoch is a millisecond count, the last tick is not negative and is at most the
  largest elapsed time plus one for every call, and the two small fields fit their widths.
\<close>

definition generator_inv :: "nat \<Rightarrow> Snowflake \<Rightarrow> bool" where
  "generator_inv n sf \<longleftrightarrow>
     - tickBound \<le> sint (StartTime sf) \<and> sint (StartTime sf) \<le> tickBound \<and>
     0 \<le> sint (lastTimestamp sf) \<and> sint (lastTimestamp sf) \<le> 2 * tickBound + int n \<and>
     Sequence sf \<le> mask 12 \<and> MachineID sf \<le> mask 10"

text \<open>The three fields of a generator read as one number, most significant first.\<close>

definition rank :: "Snowflake \<Rightarrow> int" where
  "rank sf = sint (lastTimestamp sf) * 2 ^ 22 + uint (MachineID sf) * 2 ^ 12
               + uint (Sequence sf)"

section \<open>Decomposition\<close>

lemma field_widths:
  "push_bit SequenceBits (1::uint16) - 1 = mask 12"
  "push_bit SequenceBits (1::uint64) - 1 = mask 12"
  "push_bit MachineIDBits (1::uint64) - 1 = mask 10"
  "push_bit EpochBits (1::int64) = 2 ^ 42"
  "MachineIDBits + SequenceBits = 22"
  by (simp_all add: SequenceBits_def MachineIDBits_def EpochBits_def
      mask_eq_exp_minus_1 push_bit_eq_mult)

lemma DecomposeParts_take_bit:
  "DecomposeParts w = (drop_bit 22 w, take_bit 10 (drop_bit 12 w), take_bit 12 w)"
proof -
  have "drop_bit 12 (w AND push_bit 12 (mask 10)) = take_bit 10 (drop_bit 12 w)"
    by (rule bit_word_eqI) (auto simp add: bit_simps)
  then show ?thesis
    unfolding DecomposeParts_def Let_def field_widths
    by (simp add: SequenceBits_def take_bit_eq_mask)
qed

lemma DecomposeParts_packed:
  "DecomposeParts (push_bit 22 t OR push_bit 12 (take_bit 10 m) OR take_bit 12 s)
     = (take_bit 42 t, take_bit 10 m, take_bit 12 s)"
proof -
  let ?w = "push_bit 22 t OR push_bit 12 (take_bit 10 m) OR take_bit 12 s"
  have "drop_bit 22 ?w = take_bit 42 t"
    by (rule bit_word_eqI) (auto simp add: bit_simps)
  moreover have "take_bit 10 (drop_bit 12 ?w) = take_bit 10 m"
    by (rule bit_word_eqI) (auto simp add: bit_simps)
  moreover have "take_bit 12 ?w = take_bit 12 s"
    by (rule bit_word_eqI) (auto simp add: bit_simps)
  ultimately show ?thesis
    by (simp add: DecomposeParts_take_bit)
qed

text \<open>
  C6: every 64-bit value decomposes, with no precondition, into
  \<open>(id >> 22, (id >> 12) & (2^10 - 1), id & (2^12 - 1))\<close>; read on the layout
  \<open>timestamp << 22 | nodeID << 12 | sequence\<close>, these are the 42 high bits, the next 10
  bits and the 12 low bits.
\<close>

theorem DecomposeParts_layout:
  "DecomposeParts w = (drop_bit 22 w, drop_bit 12 w AND (2 ^ 10 - 1), w AND (2 ^ 12 - 1))
   \<and> DecomposeParts (push_bit 22 t OR push_bit 12 (take_bit 10 m) OR take_bit 12 s)
         = (take_bit 42 t, take_bit 10 m, take_bit 12 s)"
proof
  show "DecomposeParts w = (drop_bit 22 w, drop_bit 12 w AND (2 ^ 10 - 1), w AND (2 ^ 12 - 1))"
    by (simp add: DecomposeParts_take_bit take_bit_eq_mask mask_eq_exp_minus_1)
next
  show "DecomposeParts (push_bit 22 t OR push_bit 12 (take_bit 10 m) OR take_bit 12 s)
          = (take_bit 42 t, take_bit 10 m, take_bit 12 s)"
    by (rule DecomposeParts_packed)
qed

section \<open>One call of NextID\<close>

lemma Sequence_advance_le: "Sequence (advance now sf) \<le> mask 12"
  unfolding advance_def Let_def field_widths
  by (simp add: word_and_le1)

lemma fst_NextID: "fst (NextID now sf) = advance now sf"
  by (simp add: NextID_def Let_def)

lemma snd_NextID:
  "snd (NextID now sf) =
    (if 2 ^ 42 \<le>s lastTimestamp (advance now sf) then Inl MaxTimestampReached
     else Inr (pack (advance now sf)))"
  using Sequence_advance_le [of now sf]
  unfolding NextID_def Let_def field_widths
  by (simp add: not_less [symmetric])

text \<open>
  C8: after the update the sequence is at most \<open>2^12 - 1\<close>, whatever the generator and
  the clock, so no call of \<open>NextID\<close> takes the panic branch.
\<close>

theorem NextID_never_panics:
  "snd (NextID now sf) \<noteq> Inl MaxSequencePanic
   \<and> Sequence (fst (NextID now sf)) \<le> 2 ^ 12 - 1"
  using Sequence_advance_le [of now sf]
  unfolding NextID_def Let_def field_widths
  by (simp add: mask_eq_exp_minus_1 not_less [symmetric])

text \<open>
  C2: a call of \<open>NextID\<close> fails exactly when the last tick, as the call has updated it,
  is at least \<open>2^42\<close>; it then returns the error and no identifier, and it returns an
  identifier exactly when the last tick is below \<open>2^42\<close>. This holds of every call:
  the generator and the clock reading are arbitrary.
\<close>

theorem NextID_fails_iff_epoch_exhausted:
  "(snd (NextID now sf) = Inl MaxTimestampReached)
     = (2 ^ 42 \<le>s lastTimestamp (fst (NextID now sf)))
   \<and> (\<exists>e. snd (NextID now sf) = Inl e)
     = (2 ^ 42 \<le>s lastTimestamp (fst (NextID now sf)))
   \<and> (\<exists>i. snd (NextID now sf) = Inr i)
     = (lastTimestamp (fst (NextID now sf)) <s 2 ^ 42)"
  by (auto simp add: snd_NextID fst_NextID word_sless_alt word_sle_eq)

section \<open>Construction\<close>

text \<open>
  C9: construction fails when \<^verbatim>\<open>starttime.After(time.Now())\<close> holds: \<open>NewSnowflake\<close>
  returns the nil pointer, no generator, and leaves \<^verbatim>\<open>epochStart\<close> as it was. When the
  epoch or the current time carries no monotonic reading, that is when the epoch's
  wall-clock instant is strictly later than the current one. When both carry a
  monotonic reading, construction fails exactly when the epoch's reading is the later
  one, whatever the wall-clock instants are.
\<close>

theorem NewSnowflake_future_epoch:
  "((monotonic starttime = None \<or> monotonic now = None)
      \<and> wallNanos now < wallNanos starttime
     \<longrightarrow> NewSnowflake epochStart now starttime machineID = (None, epochStart))
   \<and> (monotonic starttime = Some ms \<and> monotonic now = Some mn
     \<longrightarrow> (fst (NewSnowflake epochStart now starttime machineID) = None) = (mn < ms)
       \<and> (mn < ms
          \<longrightarrow> NewSnowflake epochStart now starttime machineID = (None, epochStart)))"
  by (auto simp add: NewSnowflake_def After_def Let_def split: option.splits)

text \<open>
  An epoch built by \<^verbatim>\<open>time.Unix\<close> one nanosecond after the wall clock, and an epoch
  \<^verbatim>\<open>time.Now().Add(time.Second)\<close>.
\<close>

theorem NewSnowflake_future_epoch_witness:
  "(monotonic (Unix 1700000000 1) = None \<or> monotonic (Now 1700000000000000000 1000) = None)
   \<and> wallNanos (Now 1700000000000000000 1000) < wallNanos (Unix 1700000000 1)
   \<and> NewSnowflake defaultEpochStart (Now 1700000000000000000 1000) (Unix 1700000000 1) 34
       = (None, defaultEpochStart)
   \<and> monotonic (Now 1700000001000000000 1000001000) = Some 1000001000
   \<and> monotonic (Now 1700000000000000000 1000) = Some 1000
   \<and> (1000 :: int) < 1000001000
   \<and> NewSnowflake defaultEpochStart (Now 1700000000000000000 1000)
         (Now 1700000001000000000 1000001000) 34
       = (None, defaultEpochStart)"
  using NewSnowflake_future_epoch
    [where starttime = "Unix 1700000000 1" and now = "Now 1700000000000000000 1000"
       and epochStart = defaultEpochStart and machineID = 34]
    NewSnowflake_future_epoch
    [where starttime = "Now 1700000001000000000 1000001000" and ms = 1000001000
       and now = "Now 1700000000000000000 1000" and mn = 1000
       and epochStart = defaultEpochStart and machineID = 34]
  by (simp add: Unix_def Now_def)

text \<open>
  An epoch whose wall-clock instant is strictly later than the current wall-clock time
  is accepted when both carry a monotonic reading and the epoch's is the earlier one:
  the epoch is the value of \<^verbatim>\<open>time.Now()\<close> at wall-clock second 1700000000, five
  seconds on the monotonic clock; the wall clock is then set back, and \<open>NewSnowflake\<close>
  is called when the wall clock reads second 1699999990 and the monotonic clock
  twenty seconds.
\<close>

theorem NewSnowflake_accepts_later_wall_epoch:
  "wallNanos (Now 1699999990000000000 20000000000)
     < wallNanos (Now 1700000000000000000 5000000000)
   \<and> NewSnowflake defaultEpochStart (Now 1699999990000000000 20000000000)
         (Now 1700000000000000000 5000000000) 1
     = (Some \<lparr>StartTime = 1700000000000, MachineID = 1, Sequence = 0, lastTimestamp = 0\<rparr>,
        Now 1700000000000000000 5000000000)"
  by (simp add: NewSnowflake_def After_def IsZero_def zeroTime_def Now_def
      maxNodeID_def MachineIDBits_def timeToSnowflakeUnit_def div64_def UnixNano_def
      snowflakeTimeUnit_def)

text \<open>
  C4: the default epoch substituted for the zero instant is whatever \<^verbatim>\<open>epochStart\<close>
  holds, and a construction with a custom epoch overwrites \<^verbatim>\<open>epochStart\<close>. After a
  generator is built with the epoch 2020-09-13 12:26:40 UTC, a generator built with the
  zero instant starts at that epoch, tick 1600000000000, and not at the built-in
  2019-04-01, tick 1554076800000.
\<close>

theorem NewSnowflake_default_epoch_overwritten:
  "NewSnowflake defaultEpochStart (Now 1700000000000000000 1000) (Unix 1600000000 0) 1
     = (Some \<lparr>StartTime = 1600000000000, MachineID = 1, Sequence = 0, lastTimestamp = 0\<rparr>,
        Unix 1600000000 0)
   \<and> NewSnowflake (Unix 1600000000 0) (Now 1700000000000000000 2000) zeroTime 2
     = (Some \<lparr>StartTime = 1600000000000, MachineID = 2, Sequence = 0, lastTimestamp = 0\<rparr>,
        Unix 1600000000 0)
   \<and> timeToSnowflakeUnit defaultEpochStart = 1554076800000"
  by (simp add: NewSnowflake_def After_def IsZero_def zeroTime_def defaultEpochStart_def
      maxNodeID_def MachineIDBits_def timeToSnowflakeUnit_def div64_def UnixNano_def
      Now_def Unix_def snowflakeTimeUnit_def)

section \<open>The arithmetic of one update\<close>

text \<open>
  The update read on integers: \<open>sint\<close> of the ticks and \<open>uint\<close> of the sequence. The
  increment of the last tick is the integer successor as long as the last tick is below
  the largest \<^verbatim>\<open>int64\<close>.
\<close>

lemma sint64_range:
  "- 9223372036854775808 \<le> sint (w :: int64)" "sint (w :: int64) < 9223372036854775808"
  using sint_ge [of w] sint_lt [of w] by simp_all

lemma sint64_of_int:
  "- 9223372036854775808 \<le> x \<Longrightarrow> x < 9223372036854775808 \<Longrightarrow> sint (word_of_int x :: int64) = x"
  by (simp add: sint_sbintrunc' signed_take_bit_int_eq_self)

lemma sdiv_million:
  "(x::int) sdiv 1000000 = (if 0 \<le> x then x div 1000000 else - ((- x) div 1000000))"
  by (simp add: signed_divide_int_def sgn_if)

lemma sdiv_million_bounds:
  assumes "- 9223372036854775808 \<le> (x::int)" "x < 9223372036854775808"
  shows "- 9223372036854 \<le> x sdiv 1000000" "x sdiv 1000000 \<le> 9223372036854"
  using assms unfolding sdiv_million by (auto; linarith)+

lemma sint_timeToSnowflakeUnit:
  "sint (timeToSnowflakeUnit t) = sint (UnixNano t) sdiv 1000000"
proof -
  have "sint snowflakeTimeUnit = 1000000"
    by (simp add: snowflakeTimeUnit_def)
  then show ?thesis
    unfolding timeToSnowflakeUnit_def div64_def
    using sdiv_million_bounds [OF sint64_range, of "UnixNano t"]
    by (simp add: sint64_of_int)
qed

lemma sint_tick_bounds:
  "- tickBound \<le> sint (timeToSnowflakeUnit t)" "sint (timeToSnowflakeUnit t) \<le> tickBound"
  unfolding sint_timeToSnowflakeUnit tickBound_def
  using sdiv_million_bounds [OF sint64_range, of "UnixNano t"] by simp_all

lemma sint_elapsedTime:
  assumes "- tickBound \<le> sint st" "sint st \<le> tickBound"
  shows "sint (elapsedTime now st) = sint (timeToSnowflakeUnit now) - sint st"
  using assms sint_tick_bounds [of now]
  unfolding elapsedTime_def tickBound_def
  by (simp add: sint_word_diff signed_take_bit_int_eq_self)

lemma sint64_succ:
  "sint a < 9223372036854775807 \<Longrightarrow> sint (a + 1 :: int64) = sint a + 1"
  using sint64_range(1) [of a]
  by (simp add: sint_word_add signed_take_bit_int_eq_self)

lemma uint_seq_succ:
  "uint ((s + 1) AND mask 12 :: uint16) = (uint s + 1) mod 4096"
proof -
  have "uint ((s + 1) AND mask 12) = uint (take_bit 12 (s + 1))"
    by (simp only: take_bit_eq_mask)
  also have "\<dots> = take_bit 12 (uint (s + 1))"
    by (rule unsigned_take_bit_eq)
  also have "\<dots> = uint (s + 1) mod 2 ^ 12"
    by (rule take_bit_eq_mod)
  also have "uint (s + 1) = (uint s + 1) mod 2 ^ 16"
    by (simp add: uint_word_ariths)
  also have "(uint s + 1) mod 2 ^ 16 mod 2 ^ 12 = (uint s + 1) mod 2 ^ 12"
    by (rule mod_mod_cancel) simp
  finally show ?thesis by simp
qed

lemma seq_succ_eq_0:
  "((s + 1) AND mask 12 = (0 :: uint16)) = ((uint s + 1) mod 4096 = 0)"
  using uint_seq_succ [of s] by (metis uint_0_iff)

lemma advance_frame:
  "StartTime (advance now sf) = StartTime sf" "MachineID (advance now sf) = MachineID sf"
  by (simp_all add: advance_def Let_def)

lemma advance_Sequence:
  "uint (Sequence (advance now sf)) =
     (if lastTimestamp sf <s elapsedTime now (StartTime sf) then 0
      else (uint (Sequence sf) + 1) mod 4096)"
proof -
  have "Sequence (advance now sf) =
     (if lastTimestamp sf <s elapsedTime now (StartTime sf) then 0
      else (Sequence sf + 1) AND mask 12)"
    unfolding advance_def Let_def field_widths by auto
  then show ?thesis
    by (simp add: uint_seq_succ)
qed

lemma advance_lastTimestamp:
  "lastTimestamp (advance now sf) =
     (if lastTimestamp sf <s elapsedTime now (StartTime sf) then elapsedTime now (StartTime sf)
      else if (uint (Sequence sf) + 1) mod 4096 = 0 then lastTimestamp sf + 1
      else lastTimestamp sf)"
proof -
  let ?s = "(Sequence sf + 1) AND mask 12"
  have "lastTimestamp (advance now sf) =
     (if lastTimestamp sf <s elapsedTime now (StartTime sf) then elapsedTime now (StartTime sf)
      else if ?s = 0 then lastTimestamp sf + 1 else lastTimestamp sf)"
    unfolding advance_def Let_def field_widths by simp
  then show ?thesis
    unfolding seq_succ_eq_0 .
qed


lemma le_mask12_iff: "(s :: uint16) \<le> mask 12 \<longleftrightarrow> uint s < 4096"
  by (simp add: word_le_def uint_mask_eq mask_eq_exp_minus_1) arith

lemma le_mask10_iff: "(m :: uint64) \<le> mask 10 \<longleftrightarrow> uint m < 1024"
  by (simp add: word_le_def uint_mask_eq mask_eq_exp_minus_1) arith

lemma sint_advance:
  assumes "sint (lastTimestamp sf) < 9223372036854775807"
  shows "sint (lastTimestamp (advance now sf)) =
     (if sint (lastTimestamp sf) < sint (elapsedTime now (StartTime sf))
      then sint (elapsedTime now (StartTime sf))
      else if (uint (Sequence sf) + 1) mod 4096 = 0 then sint (lastTimestamp sf) + 1
      else sint (lastTimestamp sf))"
  unfolding advance_lastTimestamp word_sless_alt
  using assms by (simp add: sint64_succ)

lemma generator_inv_advance:
  assumes "generator_inv n sf" and "n < 2 ^ 62"
  shows "generator_inv (Suc n) (advance now sf)"
proof -
  let ?c = "sint (elapsedTime now (StartTime sf))"
  from assms have st: "- tickBound \<le> sint (StartTime sf)" "sint (StartTime sf) \<le> tickBound"
    and l0: "0 \<le> sint (lastTimestamp sf)"
    and l1: "sint (lastTimestamp sf) \<le> 2 * tickBound + int n"
    and m: "MachineID sf \<le> mask 10"
    by (simp_all add: generator_inv_def)
  from assms(2) have n: "int n < 4611686018427387904" by simp
  have c: "?c \<le> 2 * tickBound"
    using sint_elapsedTime [OF st, of now] sint_tick_bounds [of now] st by simp
  from l1 n have "sint (lastTimestamp sf) < 9223372036854775807"
    by (simp add: tickBound_def)
  note step = sint_advance [OF this, of now]
  have "0 \<le> sint (lastTimestamp (advance now sf))"
    unfolding step using l0 by simp
  moreover have "sint (lastTimestamp (advance now sf)) \<le> 2 * tickBound + int (Suc n)"
    unfolding step using l1 c by simp
  ultimately show ?thesis
    using st m Sequence_advance_le [of now sf]
    by (simp add: generator_inv_def advance_frame)
qed

lemma lastTimestamp_advance_mono:
  assumes "generator_inv n sf" and "n < 2 ^ 62"
  shows "sint (lastTimestamp sf) \<le> sint (lastTimestamp (advance now sf))"
proof -
  from assms(2) have n: "int n < 4611686018427387904" by simp
  from assms(1) n have "sint (lastTimestamp sf) < 9223372036854775807"
    by (simp add: generator_inv_def tickBound_def)
  from sint_advance [OF this, of now] show ?thesis by simp
qed

lemma rank_advance:
  assumes "generator_inv n sf" and "n < 2 ^ 62"
  shows "rank sf < rank (advance now sf)"
proof -
  from assms(2) have n: "int n < 4611686018427387904" by simp
  from assms(1) n have "sint (lastTimestamp sf) < 9223372036854775807"
    by (simp add: generator_inv_def tickBound_def)
  note step = sint_advance [OF this, of now]
  from assms(1) have s: "uint (Sequence sf) < 4096"
    by (simp add: generator_inv_def le_mask12_iff)
  have s0: "0 \<le> uint (Sequence sf)" by simp
  show ?thesis
  proof (cases "lastTimestamp sf <s elapsedTime now (StartTime sf)")
    case True
    with s s0 show ?thesis
      unfolding rank_def advance_frame advance_Sequence step word_sless_alt
      by simp
  next
    case False
    show ?thesis
    proof (cases "uint (Sequence sf) = 4095")
      case True
      with False show ?thesis
        unfolding rank_def advance_frame advance_Sequence step word_sless_alt
        by simp
    next
      case False
      with s s0 have "(uint (Sequence sf) + 1) mod 4096 = uint (Sequence sf) + 1"
        by simp
      with \<open>\<not> lastTimestamp sf <s elapsedTime now (StartTime sf)\<close> show ?thesis
        unfolding rank_def advance_frame advance_Sequence step word_sless_alt
        by simp
    qed
  qed
qed

section \<open>The packed identifier and runs of calls\<close>

lemma or_fields_int:
  fixes l m s :: int
  assumes "0 \<le> m" "m < 2 ^ 10" "0 \<le> s" "s < 2 ^ 12"
  shows "push_bit 22 l OR push_bit 12 m OR s = l * 2 ^ 22 + m * 2 ^ 12 + s"
proof -
  have m: "take_bit 10 m = m" and s: "take_bit 12 s = s"
    using assms by (simp_all add: take_bit_int_eq_self)
  have "push_bit 12 (take_bit 10 m) AND take_bit 12 s = 0"
    by (rule bit_eqI) (simp add: bit_simps)
  then have low: "push_bit 12 m OR s = push_bit 12 m + s"
    unfolding m s by (simp add: disjunctive_add_eq_or)
  have "push_bit 22 l AND (push_bit 12 (take_bit 10 m) OR take_bit 12 s) = 0"
    by (rule bit_eqI) (auto simp add: bit_simps)
  then have high: "push_bit 22 l OR (push_bit 12 m OR s) = push_bit 22 l + (push_bit 12 m OR s)"
    unfolding m s by (simp add: disjunctive_add_eq_or)
  have "push_bit 22 l OR push_bit 12 m OR s = push_bit 22 l + (push_bit 12 m OR s)"
    by (rule high)
  also have "\<dots> = push_bit 22 l + (push_bit 12 m + s)"
    by (simp only: low)
  finally show ?thesis
    by (simp add: push_bit_eq_mult)
qed

lemma pack_fields:
  "pack sf = push_bit 22 (lastTimestamp sf) OR push_bit 12 (MachineID sf) OR ucast (Sequence sf)"
  by (simp add: pack_def MachineIDBits_def SequenceBits_def)

lemma uint64_eq_sint: "0 \<le> sint (w :: int64) \<Longrightarrow> uint w = sint w"
  using sint_lt [of w] by (simp add: uint_sint [of w] take_bit_int_eq_self)

lemma uint_pack:
  assumes "0 \<le> sint (lastTimestamp sf)" "sint (lastTimestamp sf) < 2 ^ 42"
    and "MachineID sf \<le> mask 10" "Sequence sf \<le> mask 12"
  shows "uint (pack sf) = rank sf"
proof -
  have l: "uint (lastTimestamp sf) = sint (lastTimestamp sf)"
    using assms(1) by (rule uint64_eq_sint)
  have m: "uint (MachineID sf) < 2 ^ 10"
    using assms(3) by (simp add: le_mask10_iff)
  have s: "uint (Sequence sf) < 2 ^ 12"
    using assms(4) by (simp add: le_mask12_iff)
  have pl: "uint (push_bit 22 (lastTimestamp sf)) = push_bit 22 (uint (lastTimestamp sf))"
    unfolding unsigned_push_bit_eq
    using assms(1,2) l by (intro take_bit_int_eq_self) (simp_all add: push_bit_eq_mult)
  have pm: "uint (push_bit 12 (MachineID sf)) = push_bit 12 (uint (MachineID sf))"
    unfolding unsigned_push_bit_eq
    using m by (intro take_bit_int_eq_self) (simp_all add: push_bit_eq_mult)
  have ps: "uint (ucast (Sequence sf) :: uint64) = uint (Sequence sf)"
    using s by (simp add: unsigned_ucast_eq take_bit_int_eq_self)
  show ?thesis
    unfolding pack_fields unsigned_or_eq pl pm ps rank_def
    using or_fields_int [of "uint (MachineID sf)" "uint (Sequence sf)" "uint (lastTimestamp sf)"] m s l
    by simp
qed

lemma run_Cons:
  "fst (run sf (now # nows)) = fst (run (advance now sf) nows)"
  "snd (run sf (now # nows)) = snd (NextID now sf) # snd (run (advance now sf) nows)"
  by (simp_all add: split_beta fst_NextID)


lemma generator_inv_run:
  assumes "generator_inv n sf" and "n + length nows \<le> 2 ^ 62"
  shows "generator_inv (n + length nows) (fst (run sf nows))"
  using assms
proof (induction nows arbitrary: n sf)
  case Nil
  then show ?case by simp
next
  case (Cons now nows)
  from Cons.prems have n: "n < 2 ^ 62" by simp
  from generator_inv_advance [OF Cons.prems(1) n, of now]
  have "generator_inv (Suc n + length nows) (fst (run (advance now sf) nows))"
    using Cons.prems(2) by (intro Cons.IH) simp_all
  then show ?case
    by (simp add: run_Cons del: run.simps(2))
qed

lemma maxNodeID_mask: "maxNodeID = mask 10"
  unfolding maxNodeID_def field_widths ..

lemma NewSnowflake_inv:
  assumes "fst (NewSnowflake epochStart now starttime machineID) = Some sf"
  shows "generator_inv 0 sf" and "MachineID sf = machineID AND mask 10"
proof -
  have mid: "machineID AND maxNodeID \<le> mask 10"
    unfolding maxNodeID_mask by (rule word_and_le1)
  from assms obtain t where sf:
    "sf = \<lparr>StartTime = timeToSnowflakeUnit t, MachineID = machineID AND maxNodeID,
           Sequence = 0, lastTimestamp = 0\<rparr>"
    by (auto simp add: NewSnowflake_def Let_def split: if_splits)
  show "generator_inv 0 sf"
    using sint_tick_bounds [of t] mid
    by (simp add: sf generator_inv_def tickBound_def)
  show "MachineID sf = machineID AND mask 10"
    by (simp add: sf maxNodeID_mask)
qed

lemma MachineID_run: "MachineID (fst (run sf nows)) = MachineID sf"
  by (induction nows arbitrary: sf) (simp_all add: run_Cons advance_frame del: run.simps(2))

section \<open>Identifiers of a run\<close>

lemma set_successes_Cons:
  "set (successes (r # rs)) = (case r of Inl e \<Rightarrow> {} | Inr i \<Rightarrow> {i}) \<union> set (successes rs)"
  by (cases r) simp_all

lemma NextID_success:
  assumes "generator_inv n sf" and "n < 2 ^ 62" and "snd (NextID now sf) = Inr i"
  shows "uint i = rank (advance now sf)" and "rank sf < uint i"
proof -
  from assms(3) have i: "i = pack (advance now sf)"
    and lt: "\<not> 2 ^ 42 \<le>s lastTimestamp (advance now sf)"
    by (simp_all add: snd_NextID split: if_splits)
  from generator_inv_advance [OF assms(1,2), of now]
  have inv: "generator_inv (Suc n) (advance now sf)" .
  from lt have "sint (lastTimestamp (advance now sf)) < 2 ^ 42"
    by (simp add: word_sle_eq)
  with inv show "uint i = rank (advance now sf)"
    unfolding i by (intro uint_pack) (simp_all add: generator_inv_def)
  with rank_advance [OF assms(1,2), of now] show "rank sf < uint i"
    by simp
qed

lemma successes_above_rank:
  assumes "generator_inv n sf" and "n + length nows \<le> 2 ^ 62"
  shows "\<forall>i \<in> set (successes (snd (run sf nows))). rank sf < uint i"
  using assms
proof (induction nows arbitrary: n sf)
  case Nil
  then show ?case by simp
next
  case (Cons now nows)
  from Cons.prems have n: "n < 2 ^ 62" by simp
  note inv = generator_inv_advance [OF Cons.prems(1) n, of now]
  have "\<forall>i \<in> set (successes (snd (run (advance now sf) nows))). rank (advance now sf) < uint i"
    using inv Cons.prems(2) by (intro Cons.IH [of "Suc n"]) simp_all
  with rank_advance [OF Cons.prems(1) n, of now]
  have tail: "\<forall>i \<in> set (successes (snd (run (advance now sf) nows))). rank sf < uint i"
    by fastforce
  show ?case
    unfolding run_Cons set_successes_Cons
    using tail NextID_success(2) [OF Cons.prems(1) n]
    by (auto split: sum.splits)
qed

lemma successes_sorted:
  assumes "generator_inv n sf" and "n + length nows \<le> 2 ^ 62"
  shows "sorted_wrt (<) (successes (snd (run sf nows)))"
  using assms
proof (induction nows arbitrary: n sf)
  case Nil
  then show ?case by simp
next
  case (Cons now nows)
  from Cons.prems have n: "n < 2 ^ 62" by simp
  note inv = generator_inv_advance [OF Cons.prems(1) n, of now]
  have tail: "sorted_wrt (<) (successes (snd (run (advance now sf) nows)))"
    using inv Cons.prems(2) by (intro Cons.IH [of "Suc n"]) simp_all
  have above: "\<forall>j \<in> set (successes (snd (run (advance now sf) nows))). rank (advance now sf) < uint j"
    using inv Cons.prems(2) by (intro successes_above_rank [of "Suc n"]) simp_all
  show ?case
  proof (cases "snd (NextID now sf)")
    case (Inl e)
    with tail show ?thesis
      by (simp add: run_Cons del: run.simps(2))
  next
    case (Inr i)
    from NextID_success(1) [OF Cons.prems(1) n Inr] above
    have "\<forall>j \<in> set (successes (snd (run (advance now sf) nows))). i < j"
      by (simp add: word_less_def)
    with tail Inr show ?thesis
      by (simp add: run_Cons del: run.simps(2))
  qed
qed

lemma exhausted_stays:
  assumes "generator_inv n sf" and "n + length nows \<le> 2 ^ 62"
    and "2 ^ 42 \<le> sint (lastTimestamp sf)"
  shows "\<forall>r \<in> set (snd (run sf nows)). r = Inl MaxTimestampReached"
  using assms
proof (induction nows arbitrary: n sf)
  case Nil
  then show ?case by simp
next
  case (Cons now nows)
  from Cons.prems have n: "n < 2 ^ 62" by simp
  note inv = generator_inv_advance [OF Cons.prems(1) n, of now]
  from lastTimestamp_advance_mono [OF Cons.prems(1) n, of now] Cons.prems(3)
  have ex: "2 ^ 42 \<le> sint (lastTimestamp (advance now sf))" by simp
  then have "snd (NextID now sf) = Inl MaxTimestampReached"
    by (simp add: snd_NextID word_sle_eq)
  moreover have "\<forall>r \<in> set (snd (run (advance now sf) nows)). r = Inl MaxTimestampReached"
    using inv Cons.prems(2) ex by (intro Cons.IH [of "Suc n"]) simp_all
  ultimately show ?case
    by (simp add: run_Cons del: run.simps(2))
qed

lemma error_is_final:
  assumes "generator_inv n sf" and "n + length nows \<le> 2 ^ 62"
    and "snd (run sf nows) = rs1 @ Inl MaxTimestampReached # rs2"
  shows "\<forall>r \<in> set rs2. r = Inl MaxTimestampReached"
  using assms
proof (induction nows arbitrary: n sf rs1)
  case Nil
  then show ?case by simp
next
  case (Cons now nows)
  from Cons.prems have n: "n < 2 ^ 62" by simp
  note inv = generator_inv_advance [OF Cons.prems(1) n, of now]
  from Cons.prems(2) have len: "Suc n + length nows \<le> 2 ^ 62" by simp
  from Cons.prems(3)
  have eq: "snd (NextID now sf) # snd (run (advance now sf) nows)
              = rs1 @ Inl MaxTimestampReached # rs2"
    by (simp add: run_Cons del: run.simps(2))
  show ?case
  proof (cases rs1)
    case Nil
    with eq have err: "snd (NextID now sf) = Inl MaxTimestampReached"
      and rs2: "rs2 = snd (run (advance now sf) nows)" by simp_all
    from err have "2 ^ 42 \<le> sint (lastTimestamp (advance now sf))"
      by (simp add: snd_NextID word_sle_eq split: if_splits)
    from exhausted_stays [OF inv len this] show ?thesis
      unfolding rs2 .
  next
    case later: (Cons r rs1')
    with eq have "snd (run (advance now sf) nows) = rs1' @ Inl MaxTimestampReached # rs2"
      by simp
    from Cons.IH [OF inv len this] show ?thesis .
  qed
qed

lemma DecomposeParts_pack:
  assumes "MachineID sf \<le> mask 10" and "Sequence sf \<le> mask 12"
  shows "DecomposeParts (pack sf)
    = (take_bit 42 (lastTimestamp sf), MachineID sf, ucast (Sequence sf))"
proof -
  from assms(1) have m: "take_bit 10 (MachineID sf) = MachineID sf"
    by (simp add: le_mask10_iff word_uint_eq_iff unsigned_take_bit_eq take_bit_int_eq_self)
  from assms(2) have s0: "take_bit 12 (Sequence sf) = Sequence sf"
    by (simp add: le_mask12_iff word_uint_eq_iff unsigned_take_bit_eq take_bit_int_eq_self)
  have "take_bit 12 (ucast (Sequence sf) :: uint64) = ucast (take_bit 12 (Sequence sf))"
    by (intro bit_word_eqI) (auto simp add: bit_simps)
  with s0 have s: "take_bit 12 (ucast (Sequence sf) :: uint64) = ucast (Sequence sf)"
    by simp
  from DecomposeParts_packed [of "lastTimestamp sf" "MachineID sf" "ucast (Sequence sf)"]
  show ?thesis
    unfolding pack_fields m s .
qed

lemma ucast_Sequence_le:
  assumes "(s :: uint16) \<le> mask 12"
  shows "(ucast s :: uint64) \<le> 4095"
proof -
  from assms have "uint s < 4096" by (simp add: le_mask12_iff)
  moreover from this have "uint (ucast s :: uint64) = uint s"
    by (simp add: unsigned_ucast_eq take_bit_int_eq_self)
  ultimately show ?thesis
    by (simp add: word_le_def)
qed

lemma NextID_success_fields:
  assumes "MachineID sf \<le> mask 10" and "snd (NextID now sf) = Inr i"
  shows "fst (snd (DecomposeParts i)) = MachineID sf"
    and "snd (snd (DecomposeParts i)) \<le> 4095"
    and "fst (DecomposeParts i) = take_bit 42 (lastTimestamp (advance now sf))"
proof -
  from assms(2) have i: "i = pack (advance now sf)"
    by (simp add: snd_NextID split: if_splits)
  from assms(1) have m: "MachineID (advance now sf) \<le> mask 10"
    by (simp add: advance_frame)
  note d = DecomposeParts_pack [OF m Sequence_advance_le]
  show "fst (snd (DecomposeParts i)) = MachineID sf"
    unfolding i d by (simp add: advance_frame)
  show "snd (snd (DecomposeParts i)) \<le> 4095"
    unfolding i d using ucast_Sequence_le [OF Sequence_advance_le, of now sf] by simp
  show "fst (DecomposeParts i) = take_bit 42 (lastTimestamp (advance now sf))"
    unfolding i d by simp
qed

lemma successes_fields:
  assumes "MachineID sf \<le> mask 10"
  shows "\<forall>i \<in> set (successes (snd (run sf nows))).
           fst (snd (DecomposeParts i)) = MachineID sf \<and> snd (snd (DecomposeParts i)) \<le> 4095"
  using assms
proof (induction nows arbitrary: sf)
  case Nil
  then show ?case by simp
next
  case (Cons now nows)
  from Cons.prems have "MachineID (advance now sf) \<le> mask 10"
    by (simp add: advance_frame)
  from Cons.IH [OF this]
  have tail: "\<forall>i \<in> set (successes (snd (run (advance now sf) nows))).
           fst (snd (DecomposeParts i)) = MachineID sf \<and> snd (snd (DecomposeParts i)) \<le> 4095"
    by (simp add: advance_frame)
  show ?case
    unfolding run_Cons set_successes_Cons
    using tail NextID_success_fields(1,2) [OF Cons.prems]
    by (auto split: sum.splits)
qed

lemma sorted_gap:
  fixes xs :: "uint64 list"
  assumes "sorted_wrt (<) xs" and "i + k < length xs"
  shows "uint (xs ! i) + int k \<le> uint (xs ! (i + k))"
  using assms(2)
proof (induction k)
  case 0
  then show ?case by simp
next
  case (Suc k)
  then have "uint (xs ! i) + int k \<le> uint (xs ! (i + k))" by simp
  moreover from Suc.prems have "xs ! (i + k) < xs ! (i + Suc k)"
    by (intro sorted_wrt_nth_less [OF assms(1), of "i + k" "i + Suc k"]) simp_all
  then have "uint (xs ! (i + k)) < uint (xs ! (i + Suc k))"
    by (simp add: word_less_def)
  ultimately show ?case by simp
qed

lemma uint_fields:
  fixes w :: uint64
  shows "uint w = uint (drop_bit 22 w) * 2 ^ 22
                  + uint (take_bit 10 (drop_bit 12 w)) * 2 ^ 12 + uint (take_bit 12 w)"
proof -
  let ?x = "uint w"
  have t: "uint (drop_bit 22 w) = ?x div 2 ^ 22"
    by (simp add: drop_bit_eq_div uint_div_distrib)
  have m: "uint (take_bit 10 (drop_bit 12 w)) = ?x div 2 ^ 12 mod 2 ^ 10"
    by (simp add: drop_bit_eq_div take_bit_eq_mod uint_div_distrib uint_mod_distrib)
  have s: "uint (take_bit 12 w) = ?x mod 2 ^ 12"
    by (simp add: take_bit_eq_mod uint_mod_distrib)
  have "?x mod (2 ^ 12 * 2 ^ 10) = 2 ^ 12 * (?x div 2 ^ 12 mod 2 ^ 10) + ?x mod 2 ^ 12"
    by (rule zmod_zmult2_eq) simp
  moreover have "?x = ?x div 2 ^ 22 * 2 ^ 22 + ?x mod 2 ^ 22"
    by simp
  ultimately show ?thesis
    unfolding t m s by simp
qed

lemma fields_order:
  fixes a b :: uint64
  assumes "uint a + d \<le> uint b" and "0 < d"
    and "fst (snd (DecomposeParts a)) = fst (snd (DecomposeParts b))"
  shows "fst (DecomposeParts a) < fst (DecomposeParts b)
         \<or> fst (DecomposeParts a) = fst (DecomposeParts b)
           \<and> uint (snd (snd (DecomposeParts a))) + d \<le> uint (snd (snd (DecomposeParts b)))"
proof -
  let ?ta = "uint (drop_bit 22 a)" and ?tb = "uint (drop_bit 22 b)"
  let ?sa = "uint (take_bit 12 a)" and ?sb = "uint (take_bit 12 b)"
  from assms(3) have m: "take_bit 10 (drop_bit 12 a) = take_bit 10 (drop_bit 12 b)"
    by (simp add: DecomposeParts_take_bit)
  have sa: "0 \<le> ?sa" "?sa < 4096" and sb: "0 \<le> ?sb" "?sb < 4096"
    by (simp_all add: take_bit_eq_mod uint_mod_distrib)
  from assms(1) uint_fields [of a] uint_fields [of b] m
  have le: "?ta * 2 ^ 22 + ?sa + d \<le> ?tb * 2 ^ 22 + ?sb"
    by simp
  have "?ta \<le> ?tb"
  proof (rule ccontr)
    assume "\<not> ?ta \<le> ?tb"
    then have "?tb + 1 \<le> ?ta" by simp
    then have "?tb * 4194304 + 4194304 \<le> ?ta * 4194304" by simp
    moreover from le have "?ta * 4194304 + ?sa + d \<le> ?tb * 4194304 + ?sb" by simp
    ultimately show False
      using sa sb assms(2) by linarith
  qed
  then consider "?ta < ?tb" | "?ta = ?tb" by linarith
  then show ?thesis
  proof cases
    case 1
    then show ?thesis
      by (simp add: DecomposeParts_take_bit word_less_def)
  next
    case 2
    with le have "?sa + d \<le> ?sb" by simp
    with 2 show ?thesis
      by (simp add: DecomposeParts_take_bit word_uint_eq_iff)
  qed
qed

lemma timestamp_field:
  assumes "generator_inv n sf" and "n < 2 ^ 62" and "snd (NextID now sf) = Inr i"
  shows "uint (fst (DecomposeParts i)) = sint (lastTimestamp (fst (NextID now sf)))"
proof -
  let ?l = "lastTimestamp (advance now sf)"
  from generator_inv_advance [OF assms(1,2), of now]
  have l0: "0 \<le> sint ?l" and m: "MachineID sf \<le> mask 10"
    by (simp_all add: generator_inv_def advance_frame)
  from assms(3) have "\<not> 2 ^ 42 \<le>s ?l"
    by (simp add: snd_NextID split: if_splits)
  then have "sint ?l < 2 ^ 42"
    by (simp add: word_sle_eq)
  with l0 have "uint ?l < 2 ^ 42"
    by (simp add: uint64_eq_sint)
  then have "uint (take_bit 42 ?l) = uint ?l"
    by (simp add: unsigned_take_bit_eq take_bit_int_eq_self)
  with l0 show ?thesis
    unfolding NextID_success_fields(3) [OF m assms(3)] fst_NextID
    by (simp add: uint64_eq_sint)
qed

lemma unat_seq_succ:
  "unat ((s + 1) AND mask 12 :: uint16) = (unat s + 1) mod 4096"
proof -
  have "unat ((s + 1) AND mask 12) = nat (uint ((s + 1) AND mask 12))"
    by simp
  also have "\<dots> = nat ((uint s + 1) mod 4096)"
    by (simp only: uint_seq_succ)
  also have "\<dots> = (nat (uint s) + 1) mod 4096"
    by (simp add: nat_mod_distrib nat_add_distrib)
  finally show ?thesis
    by simp
qed

lemma advance_refines_spec:
  assumes "generator_inv n sf" and "n < 2 ^ 62"
  shows "spec_advance (sint (timeToSnowflakeUnit now) - sint (StartTime sf))
           (sint (lastTimestamp sf), unat (Sequence sf))
         = (sint (lastTimestamp (advance now sf)), unat (Sequence (advance now sf)))"
proof -
  let ?c = "sint (timeToSnowflakeUnit now) - sint (StartTime sf)"
  let ?s = "(Sequence sf + 1) AND mask 12"
  from assms(2) have n: "int n < 4611686018427387904" by simp
  from assms(1) n have l: "sint (lastTimestamp sf) < 9223372036854775807"
    by (simp add: generator_inv_def tickBound_def)
  from assms(1) have c: "sint (elapsedTime now (StartTime sf)) = ?c"
    by (intro sint_elapsedTime) (simp_all add: generator_inv_def)
  have z: "(?s = 0) = ((unat (Sequence sf) + 1) mod 4096 = 0)"
    using unat_seq_succ [of "Sequence sf"] by (metis unat_eq_zero)
  show ?thesis
  proof (cases "sint (lastTimestamp sf) < ?c")
    case True
    then have "lastTimestamp sf <s elapsedTime now (StartTime sf)"
      by (simp add: word_sless_alt c)
    then have "advance now sf = sf\<lparr>lastTimestamp := elapsedTime now (StartTime sf), Sequence := 0\<rparr>"
      by (simp add: advance_def Let_def)
    with True show ?thesis
      by (simp add: spec_advance_def c)
  next
    case False
    then have nl: "\<not> lastTimestamp sf <s elapsedTime now (StartTime sf)"
      by (simp add: word_sless_alt c)
    show ?thesis
    proof (cases "?s = 0")
      case True
      with nl have "advance now sf = sf\<lparr>Sequence := 0, lastTimestamp := lastTimestamp sf + 1\<rparr>"
        unfolding advance_def Let_def field_widths by simp
      with True False l show ?thesis
        by (simp add: spec_advance_def Let_def SequenceBits_def z sint64_succ)
    next
      case nz: False
      with nl have "advance now sf = sf\<lparr>Sequence := ?s\<rparr>"
        unfolding advance_def Let_def field_widths by simp
      with nz False show ?thesis
        by (simp add: spec_advance_def Let_def SequenceBits_def z unat_seq_succ)
    qed
  qed
qed

lemma uint_gap_nat:
  fixes a b :: uint64
  shows "(uint a + int d \<le> uint b) = (unat a + d \<le> unat b)"
proof -
  have "(uint a + int d \<le> uint b) = (int (unat a + d) \<le> int (unat b))"
    by (simp only: uint_nat of_nat_add)
  also have "\<dots> = (unat a + d \<le> unat b)"
    by (rule of_nat_le_iff)
  finally show ?thesis .
qed

lemma successes_ordered_fields:
  assumes "generator_inv 0 sf" and "length nows \<le> 2 ^ 62"
    and "i < j" and "j < length (successes (snd (run sf nows)))"
  shows "fst (DecomposeParts (successes (snd (run sf nows)) ! i))
           < fst (DecomposeParts (successes (snd (run sf nows)) ! j))
         \<or> fst (DecomposeParts (successes (snd (run sf nows)) ! i))
             = fst (DecomposeParts (successes (snd (run sf nows)) ! j))
           \<and> unat (snd (snd (DecomposeParts (successes (snd (run sf nows)) ! i)))) + (j - i)
               \<le> unat (snd (snd (DecomposeParts (successes (snd (run sf nows)) ! j))))"
proof -
  let ?ids = "successes (snd (run sf nows))"
  from assms(1,2) have "sorted_wrt (<) ?ids"
    by (intro successes_sorted [of 0]) simp_all
  from sorted_gap [OF this, of i "j - i"] assms(3,4)
  have gap: "uint (?ids ! i) + int (j - i) \<le> uint (?ids ! j)" by simp
  from assms(1) have m: "MachineID sf \<le> mask 10"
    by (simp add: generator_inv_def)
  from assms(3,4) have "?ids ! i \<in> set ?ids" "?ids ! j \<in> set ?ids"
    by simp_all
  with successes_fields [OF m, of nows]
  have "fst (snd (DecomposeParts (?ids ! i))) = fst (snd (DecomposeParts (?ids ! j)))"
    by simp
  moreover from assms(3) have "0 < int (j - i)"
    by simp
  ultimately show ?thesis
    using fields_order [OF gap] unfolding uint_gap_nat by blast
qed

lemma successes_rollover:
  assumes "generator_inv 0 sf" and "length nows \<le> 2 ^ 62"
    and "i + 4096 \<le> j" and "j < length (successes (snd (run sf nows)))"
  shows "fst (DecomposeParts (successes (snd (run sf nows)) ! i))
           < fst (DecomposeParts (successes (snd (run sf nows)) ! j))"
proof -
  let ?ids = "successes (snd (run sf nows))"
  from assms(1) have m: "MachineID sf \<le> mask 10"
    by (simp add: generator_inv_def)
  from assms(4) have "?ids ! j \<in> set ?ids" by simp
  with successes_fields [OF m, of nows]
  have "snd (snd (DecomposeParts (?ids ! j))) \<le> 4095" by simp
  then have "unat (snd (snd (DecomposeParts (?ids ! j)))) \<le> 4095"
    by (simp add: word_le_nat_alt)
  with successes_ordered_fields [OF assms(1,2) _ assms(4), of i] assms(3)
  show ?thesis by auto
qed

lemma all_succeed:
  assumes "generator_inv n sf" and "n + length nows \<le> 2 ^ 62"
    and "\<forall>now \<in> set nows. sint (timeToSnowflakeUnit now) - sint (StartTime sf) \<le> b"
    and "sint (lastTimestamp sf) \<le> b + int k" and "b + int k + int (length nows) < 2 ^ 42"
  shows "length (successes (snd (run sf nows))) = length nows"
  using assms
proof (induction nows arbitrary: n k sf)
  case Nil
  then show ?case by simp
next
  case (Cons now nows)
  from Cons.prems have n: "n < 2 ^ 62" by simp
  then have n': "int n < 4611686018427387904" by simp
  note inv = generator_inv_advance [OF Cons.prems(1) n, of now]
  from Cons.prems(1) n' have "sint (lastTimestamp sf) < 9223372036854775807"
    by (simp add: generator_inv_def tickBound_def)
  note step = sint_advance [OF this, of now]
  from Cons.prems(1) have c: "sint (elapsedTime now (StartTime sf))
      = sint (timeToSnowflakeUnit now) - sint (StartTime sf)"
    by (intro sint_elapsedTime) (simp_all add: generator_inv_def)
  from Cons.prems(3) have cb: "sint (timeToSnowflakeUnit now) - sint (StartTime sf) \<le> b"
    by simp
  have l: "sint (lastTimestamp (advance now sf)) \<le> b + int (Suc k)"
    unfolding step c using cb Cons.prems(4) by simp
  with Cons.prems(5) have "sint (lastTimestamp (advance now sf)) < 2 ^ 42"
    by simp
  then have ok: "snd (NextID now sf) = Inr (pack (advance now sf))"
    by (simp add: snd_NextID word_sle_eq)
  have "length (successes (snd (run (advance now sf) nows))) = length nows"
    using inv Cons.prems(2,3,5) l
    by (intro Cons.IH [of "Suc n" _ "Suc k"]) (simp_all add: advance_frame)
  with ok show ?case
    by (simp add: run_Cons del: run.simps(2))
qed

section \<open>Two generators evaluated\<close>

text \<open>
  A generator built at 2023-11-14 22:13:20 UTC with the default epoch and the node
  identifier 1058, called at one clock reading twice and then at a reading one second
  earlier; and a generator whose epoch lies \<open>2^42\<close> milliseconds and one second before
  the clock.
\<close>

lemma built_generator:
  "fst (NewSnowflake defaultEpochStart (Now 1700000000000000000 1000) zeroTime 1058)
     = Some
         \<lparr>StartTime = 1554076800000, MachineID = 34, Sequence = 0, lastTimestamp = 0\<rparr>
         "
  by (simp add: NewSnowflake_def After_def IsZero_def zeroTime_def defaultEpochStart_def
      maxNodeID_def MachineIDBits_def timeToSnowflakeUnit_def div64_def UnixNano_def Now_def Unix_def
      snowflakeTimeUnit_def)

lemma built_generator_run:
  "run \<lparr>StartTime = 1554076800000, MachineID = 34, Sequence = 0, lastTimestamp = 0\<rparr>
     [Now 1700000000000000001 2000, Now 1700000000000000001 3000,
        Now 1699999999000000000 4000]
   = (\<lparr>StartTime = 1554076800000, MachineID = 34, Sequence = 2, lastTimestamp = 145923200000\<rparr>,
      [Inr 612046261452939264, Inr 612046261452939265, Inr 612046261452939266])"
  by code_simp

lemma expired_generator:
  "fst (NewSnowflake defaultEpochStart (Now 1700000000000000000 1000) (Unix 0 (- 2698046512104000000)) 137)
     = Some
         \<lparr>StartTime = - 2698046512104, MachineID = 137, Sequence = 0, lastTimestamp = 0\<rparr>
         "
  by (simp add: NewSnowflake_def After_def IsZero_def zeroTime_def defaultEpochStart_def
      maxNodeID_def MachineIDBits_def timeToSnowflakeUnit_def div64_def UnixNano_def Now_def Unix_def
      snowflakeTimeUnit_def)

lemma expired_generator_run:
  "snd (run
      \<lparr>StartTime = - 2698046512104, MachineID = 137, Sequence = 0, lastTimestamp = 0\<rparr>
     [Now 1700000000000000000 2000, Now 1700000000000000000 3000, Now 0 4000])
   = [Inl MaxTimestampReached, Inl MaxTimestampReached, Inl MaxTimestampReached]"
  by code_simp

lemma built_generator_tick:
  "sint (timeToSnowflakeUnit (Now 1700000000000000001 2000)) - sint (1554076800000 :: int64) = 145923200000"
  by (simp add: timeToSnowflakeUnit_def div64_def UnixNano_def Now_def Unix_def snowflakeTimeUnit_def)


section \<open>A generator over its calls\<close>

text \<open>
  The theorems below are about a generator that \<open>NewSnowflake\<close> returned and the calls
  of \<open>NextID\<close> made on it since, at arbitrary clock readings. They are stated for at
  most \<open>2^62\<close> calls: the last tick is at most \<open>2 * tickBound\<close> plus the number of
  calls, so within that many calls the \<^verbatim>\<open>int64\<close> increment of the last tick does not
  wrap.
\<close>

text \<open>
  Past that bound the model follows Go: at the largest \<^verbatim>\<open>int64\<close> the increment of
  the last tick wraps to the smallest one.
\<close>

lemma advance_wraps_at_largest_int64:
  "advance (Now 0 0) \<lparr>StartTime = 0, MachineID = 1, Sequence = 4095,
               lastTimestamp = 9223372036854775807\<rparr>
   = \<lparr>StartTime = 0, MachineID = 1, Sequence = 0, lastTimestamp = - 9223372036854775808\<rparr>"
  by (simp add: advance_def elapsedTime_def timeToSnowflakeUnit_def div64_def UnixNano_def Now_def Unix_def
      snowflakeTimeUnit_def SequenceBits_def Let_def word_sless_alt)

text \<open>
  C1: the identifiers that the successful calls on one generator return, taken in the
  order of the calls, are strictly increasing as unsigned 64-bit integers: a later
  successful call returns a strictly greater identifier than an earlier one.
\<close>

theorem NextID_strictly_increasing:
  assumes "fst (NewSnowflake epochStart now0 starttime machineID) = Some sf"
    and "length nows \<le> 2 ^ 62"
  shows "sorted_wrt (<) (successes (snd (run sf nows)))"
proof -
  from assms(1) have "generator_inv 0 sf"
    by (rule NewSnowflake_inv(1))
  with assms(2) show ?thesis
    by (intro successes_sorted [of 0]) simp_all
qed

theorem NextID_strictly_increasing_witness:
  "fst (NewSnowflake defaultEpochStart (Now 1700000000000000000 1000) zeroTime 1058) = Some
      \<lparr>StartTime = 1554076800000, MachineID = 34, Sequence = 0, lastTimestamp = 0\<rparr>
   \<and> length ([Now 1700000000000000001 2000, Now 1700000000000000001 3000,
        Now 1699999999000000000 4000] :: Time list) \<le> 2 ^ 62
   \<and> successes (snd (run
       \<lparr>StartTime = 1554076800000, MachineID = 34, Sequence = 0, lastTimestamp = 0\<rparr>
       [Now 1700000000000000001 2000, Now 1700000000000000001 3000,
        Now 1699999999000000000 4000]))
       = [612046261452939264, 612046261452939265, 612046261452939266]
   \<and> sorted_wrt (<) (successes (snd (run
       \<lparr>StartTime = 1554076800000, MachineID = 34, Sequence = 0, lastTimestamp = 0\<rparr>
       [Now 1700000000000000001 2000, Now 1700000000000000001 3000,
        Now 1699999999000000000 4000])))"
proof -
  have len: "length ([Now 1700000000000000001 2000, Now 1700000000000000001 3000,
        Now 1699999999000000000 4000] :: Time list) \<le> 2 ^ 62"
    by simp
  have ids: "successes (snd (run
      \<lparr>StartTime = 1554076800000, MachineID = 34, Sequence = 0, lastTimestamp = 0\<rparr>
      [Now 1700000000000000001 2000, Now 1700000000000000001 3000,
        Now 1699999999000000000 4000]))
       = [612046261452939264, 612046261452939265, 612046261452939266]"
    by (simp only: built_generator_run snd_conv successes.simps)
  from NextID_strictly_increasing [OF built_generator len]
  have "sorted_wrt (<) (successes (snd (run
      \<lparr>StartTime = 1554076800000, MachineID = 34, Sequence = 0, lastTimestamp = 0\<rparr>
      [Now 1700000000000000001 2000, Now 1700000000000000001 3000,
        Now 1699999999000000000 4000])))" .
  with built_generator len ids show ?thesis
    by (intro conjI)
qed

text \<open>
  C3: once a call of \<open>NextID\<close> on a generator has returned the error, every later call
  on that generator returns the error too, whatever the clock reads afterwards.
\<close>

theorem EpochExhausted_is_permanent:
  assumes "fst (NewSnowflake epochStart now0 starttime machineID) = Some sf"
    and "length nows \<le> 2 ^ 62"
    and "snd (run sf nows) = rs1 @ Inl MaxTimestampReached # rs2"
  shows "\<forall>r \<in> set rs2. r = Inl MaxTimestampReached"
proof -
  from assms(1) have "generator_inv 0 sf"
    by (rule NewSnowflake_inv(1))
  from error_is_final [OF this _ assms(3)] assms(2) show ?thesis
    by simp
qed

theorem EpochExhausted_is_permanent_witness:
  "fst (NewSnowflake defaultEpochStart (Now 1700000000000000000 1000) (Unix 0 (- 2698046512104000000)) 137)
     = Some
         \<lparr>StartTime = - 2698046512104, MachineID = 137, Sequence = 0, lastTimestamp = 0\<rparr>
   \<and> length ([Now 1700000000000000000 2000, Now 1700000000000000000 3000, Now 0 4000] :: Time list) \<le> 2 ^ 62
   \<and> snd (run
       \<lparr>StartTime = - 2698046512104, MachineID = 137, Sequence = 0, lastTimestamp = 0\<rparr>
       [Now 1700000000000000000 2000, Now 1700000000000000000 3000, Now 0 4000])
       = [] @ Inl MaxTimestampReached # [Inl MaxTimestampReached, Inl MaxTimestampReached]
   \<and> sint (elapsedTime (Now 0 4000) (- 2698046512104)) < 2 ^ 42
   \<and> set [Inl MaxTimestampReached, Inl MaxTimestampReached :: error + uint64]
       \<subseteq> {Inl MaxTimestampReached}"
proof -
  have len: "length ([Now 1700000000000000000 2000, Now 1700000000000000000 3000, Now 0 4000] :: Time list) \<le> 2 ^ 62"
    by simp
  have rs: "snd (run
      \<lparr>StartTime = - 2698046512104, MachineID = 137, Sequence = 0, lastTimestamp = 0\<rparr>
      [Now 1700000000000000000 2000, Now 1700000000000000000 3000, Now 0 4000])
       = [] @ Inl MaxTimestampReached # [Inl MaxTimestampReached, Inl MaxTimestampReached]"
    by (simp only: expired_generator_run append_Nil)
  have tick: "sint (elapsedTime (Now 0 4000) (- 2698046512104)) < 2 ^ 42"
    by (simp add: elapsedTime_def timeToSnowflakeUnit_def div64_def UnixNano_def Now_def Unix_def
        snowflakeTimeUnit_def)
  from EpochExhausted_is_permanent [OF expired_generator len rs]
  have "set [Inl MaxTimestampReached, Inl MaxTimestampReached :: error + uint64]
       \<subseteq> {Inl MaxTimestampReached}"
    by auto
  with expired_generator len rs tick show ?thesis
    by (intro conjI)
qed

text \<open>
  C10: a call of \<open>NextID\<close>, successful or not, leaves the last tick greater than or
  equal to what it was before the call, also when the clock reads an earlier time than
  at a previous call.
\<close>

theorem lastTimestamp_never_decreases:
  assumes "fst (NewSnowflake epochStart now0 starttime machineID) = Some sf"
    and "length nows < 2 ^ 62"
  shows "lastTimestamp (fst (run sf nows))
           \<le>s lastTimestamp (fst (NextID now (fst (run sf nows))))"
proof -
  from assms(1) have "generator_inv 0 sf"
    by (rule NewSnowflake_inv(1))
  from generator_inv_run [OF this, of nows] assms(2)
  have "generator_inv (length nows) (fst (run sf nows))"
    by simp
  from lastTimestamp_advance_mono [OF this assms(2), of now] show ?thesis
    by (simp add: word_sle_eq fst_NextID)
qed

theorem lastTimestamp_never_decreases_witness:
  "fst (NewSnowflake defaultEpochStart (Now 1700000000000000000 1000) zeroTime 1058) = Some
      \<lparr>StartTime = 1554076800000, MachineID = 34, Sequence = 0, lastTimestamp = 0\<rparr>
   \<and> length ([Now 1700000000000000001 2000, Now 1700000000000000001 3000] :: Time list) < 2 ^ 62
   \<and> timeToSnowflakeUnit (Now 1699999999000000000 4000) <s timeToSnowflakeUnit (Now 1700000000000000001 2000)
   \<and> lastTimestamp (fst (run
       \<lparr>StartTime = 1554076800000, MachineID = 34, Sequence = 0, lastTimestamp = 0\<rparr>
       [Now 1700000000000000001 2000, Now 1700000000000000001 3000]))
       \<le>s lastTimestamp (fst (NextID (Now 1699999999000000000 4000)
             (fst (run
                 \<lparr>StartTime = 1554076800000, MachineID = 34, Sequence = 0, lastTimestamp = 0\<rparr>
                 [Now 1700000000000000001 2000, Now 1700000000000000001 3000]))))"
proof -
  have len: "length ([Now 1700000000000000001 2000, Now 1700000000000000001 3000] :: Time list) < 2 ^ 62"
    by simp
  have earlier: "timeToSnowflakeUnit (Now 1699999999000000000 4000) <s timeToSnowflakeUnit (Now 1700000000000000001 2000)"
    by (simp add: timeToSnowflakeUnit_def div64_def UnixNano_def Now_def Unix_def snowflakeTimeUnit_def)
  from lastTimestamp_never_decreases [OF built_generator len, of "Now 1699999999000000000 4000"]
  have "lastTimestamp (fst (run
      \<lparr>StartTime = 1554076800000, MachineID = 34, Sequence = 0, lastTimestamp = 0\<rparr>
      [Now 1700000000000000001 2000, Now 1700000000000000001 3000]))
       \<le>s lastTimestamp (fst (NextID (Now 1699999999000000000 4000)
             (fst (run
                 \<lparr>StartTime = 1554076800000, MachineID = 34, Sequence = 0, lastTimestamp = 0\<rparr>
                 [Now 1700000000000000001 2000, Now 1700000000000000001 3000]))))" .
  with built_generator len earlier show ?thesis
    by (intro conjI)
qed

text \<open>
  C7: \<open>DecomposeParts\<close> applied to an identifier that \<open>NextID\<close> returned gives back the
  node identifier of the generator, which is the constructor's argument masked to its
  10 low bits whatever the argument, and a sequence between 0 and 4095.
\<close>

theorem DecomposeParts_recovers_node_and_sequence:
  assumes "fst (NewSnowflake epochStart now0 starttime machineID) = Some sf"
  shows "MachineID (fst (run sf nows)) = machineID AND 1023
         \<and> (\<forall>i \<in> set (successes (snd (run sf nows))).
               fst (snd (DecomposeParts i)) = machineID AND 1023
               \<and> snd (snd (DecomposeParts i)) \<le> 4095)"
proof -
  have "(mask 10 :: int64) = 1023"
    by (simp add: mask_eq_exp_minus_1)
  with NewSnowflake_inv(2) [OF assms] have m: "MachineID sf = machineID AND 1023"
    by simp
  from NewSnowflake_inv(1) [OF assms] have "MachineID sf \<le> mask 10"
    by (simp add: generator_inv_def)
  from successes_fields [OF this, of nows] show ?thesis
    unfolding MachineID_run m by simp
qed

theorem DecomposeParts_recovers_node_and_sequence_witness:
  "fst (NewSnowflake defaultEpochStart (Now 1700000000000000000 1000) zeroTime 1058) = Some
      \<lparr>StartTime = 1554076800000, MachineID = 34, Sequence = 0, lastTimestamp = 0\<rparr>
   \<and> successes (snd (run
       \<lparr>StartTime = 1554076800000, MachineID = 34, Sequence = 0, lastTimestamp = 0\<rparr>
       [Now 1700000000000000001 2000, Now 1700000000000000001 3000,
        Now 1699999999000000000 4000]))
       = [612046261452939264, 612046261452939265, 612046261452939266]
   \<and> DecomposeParts 612046261452939266 = (145923200000, 34, 2)
   \<and> fst (snd (DecomposeParts 612046261452939266)) = 1058 AND 1023
   \<and> snd (snd (DecomposeParts 612046261452939266)) \<le> 4095"
proof -
  have ids: "successes (snd (run
      \<lparr>StartTime = 1554076800000, MachineID = 34, Sequence = 0, lastTimestamp = 0\<rparr>
      [Now 1700000000000000001 2000, Now 1700000000000000001 3000,
        Now 1699999999000000000 4000]))
       = [612046261452939264, 612046261452939265, 612046261452939266]"
    by (simp only: built_generator_run snd_conv successes.simps)
  have dec: "DecomposeParts 612046261452939266 = (145923200000, 34, 2)"
    by (simp add: DecomposeParts_take_bit)
  from DecomposeParts_recovers_node_and_sequence
    [OF built_generator, of "[Now 1700000000000000001 2000, Now 1700000000000000001 3000,
        Now 1699999999000000000 4000]"]
  have "\<forall>i \<in> set [612046261452939264, 612046261452939265, 612046261452939266 :: uint64].
          fst (snd (DecomposeParts i)) = 1058 AND 1023 \<and> snd (snd (DecomposeParts i)) \<le> 4095"
    unfolding ids by (rule conjunct2)
  then have "fst (snd (DecomposeParts 612046261452939266)) = 1058 AND 1023"
    and "snd (snd (DecomposeParts 612046261452939266)) \<le> 4095"
    by (simp_all del: and_numerals)
  with built_generator ids dec show ?thesis
    by (intro conjI)
qed

text \<open>
  C5: the update of \<open>NextID\<close> is the specification's: a later current tick is adopted
  and the sequence reset to 0; otherwise the sequence is incremented modulo \<open>2^12\<close>
  and, when it wraps to 0, the last tick moves on by exactly one. The timestamp field
  of a returned identifier is the last tick. Of two identifiers of a generator, the
  later has a greater timestamp field, or the same one and a sequence field greater by
  at least the number of identifiers between them; so an identifier returned 4096 or
  more identifiers after another has a strictly greater timestamp field, and no more
  than 4096 identifiers share a tick.
\<close>

theorem NextID_sequence_rollover:
  fixes sf0 :: Snowflake and nows :: "Time list"
  defines "sf \<equiv> fst (run sf0 nows)"
    and "ids \<equiv> successes (snd (run sf0 nows))"
  assumes "fst (NewSnowflake epochStart now0 starttime machineID) = Some sf0"
    and "length nows < 2 ^ 62"
  shows "spec_advance (sint (timeToSnowflakeUnit now) - sint (StartTime sf))
             (sint (lastTimestamp sf), unat (Sequence sf))
           = (sint (lastTimestamp (fst (NextID now sf))), unat (Sequence (fst (NextID now sf))))
         \<and> (\<forall>i. snd (NextID now sf) = Inr i \<longrightarrow>
               uint (fst (DecomposeParts i)) = sint (lastTimestamp (fst (NextID now sf))))
         \<and> (\<forall>i j. i < j \<and> j < length ids \<longrightarrow>
               fst (DecomposeParts (ids ! i)) < fst (DecomposeParts (ids ! j))
               \<or> fst (DecomposeParts (ids ! i)) = fst (DecomposeParts (ids ! j))
                 \<and> unat (snd (snd (DecomposeParts (ids ! i)))) + (j - i)
                     \<le> unat (snd (snd (DecomposeParts (ids ! j)))))
         \<and> (\<forall>i j. i + 4096 \<le> j \<and> j < length ids \<longrightarrow>
               fst (DecomposeParts (ids ! i)) < fst (DecomposeParts (ids ! j)))"
proof -
  from assms(3) have inv0: "generator_inv 0 sf0"
    by (rule NewSnowflake_inv(1))
  from generator_inv_run [OF this, of nows] assms(4)
  have inv: "generator_inv (length nows) sf"
    by (simp add: sf_def)
  from assms(4) have len: "length nows \<le> 2 ^ 62"
    by simp
  have "spec_advance (sint (timeToSnowflakeUnit now) - sint (StartTime sf))
             (sint (lastTimestamp sf), unat (Sequence sf))
           = (sint (lastTimestamp (fst (NextID now sf))), unat (Sequence (fst (NextID now sf))))"
    unfolding fst_NextID by (rule advance_refines_spec [OF inv assms(4)])
  moreover have "\<forall>i. snd (NextID now sf) = Inr i \<longrightarrow>
               uint (fst (DecomposeParts i)) = sint (lastTimestamp (fst (NextID now sf)))"
    using timestamp_field [OF inv assms(4)] by blast
  moreover have "\<forall>i j. i < j \<and> j < length ids \<longrightarrow>
               fst (DecomposeParts (ids ! i)) < fst (DecomposeParts (ids ! j))
               \<or> fst (DecomposeParts (ids ! i)) = fst (DecomposeParts (ids ! j))
                 \<and> unat (snd (snd (DecomposeParts (ids ! i)))) + (j - i)
                     \<le> unat (snd (snd (DecomposeParts (ids ! j))))"
    unfolding ids_def using successes_ordered_fields [OF inv0 len] by blast
  moreover have "\<forall>i j. i + 4096 \<le> j \<and> j < length ids \<longrightarrow>
               fst (DecomposeParts (ids ! i)) < fst (DecomposeParts (ids ! j))"
    unfolding ids_def using successes_rollover [OF inv0 len] by blast
  ultimately show ?thesis
    by (intro conjI)
qed

theorem NextID_sequence_rollover_witness:
  "fst (NewSnowflake defaultEpochStart (Now 1700000000000000000 1000) zeroTime 1058) = Some
      \<lparr>StartTime = 1554076800000, MachineID = 34, Sequence = 0, lastTimestamp = 0\<rparr>
   \<and> length (replicate 4097 (Now 1700000000000000001 2000)) < 2 ^ 62
   \<and> length (successes (snd (run
       \<lparr>StartTime = 1554076800000, MachineID = 34, Sequence = 0, lastTimestamp = 0\<rparr>
       (replicate 4097 (Now 1700000000000000001 2000))))) = 4097
   \<and> fst (DecomposeParts (successes (snd (run
       \<lparr>StartTime = 1554076800000, MachineID = 34, Sequence = 0, lastTimestamp = 0\<rparr>
       (replicate 4097 (Now 1700000000000000001 2000)))) ! 0))
       < fst (DecomposeParts
               (successes (snd (run
                   \<lparr>StartTime = 1554076800000, MachineID = 34, Sequence = 0, lastTimestamp = 0\<rparr>
                   (replicate 4097 (Now 1700000000000000001 2000)))) ! 4096))"
proof -
  let ?nows = "replicate 4097 (Now 1700000000000000001 2000)"
  let ?ids = "successes (snd (run
      \<lparr>StartTime = 1554076800000, MachineID = 34, Sequence = 0, lastTimestamp = 0\<rparr>
      ?nows))"
  have len: "length ?nows < 2 ^ 62"
    by (simp only: length_replicate) simp
  from built_generator have inv: "generator_inv 0
      \<lparr>StartTime = 1554076800000, MachineID = 34, Sequence = 0, lastTimestamp = 0\<rparr>
      "
    by (rule NewSnowflake_inv(1))
  have "length ?ids = length ?nows"
  proof (rule all_succeed [OF inv, where b = 145923200000 and k = 0])
    show "0 + length ?nows \<le> 2 ^ 62"
      by (simp only: length_replicate) simp
    show "\<forall>now \<in> set ?nows. sint (timeToSnowflakeUnit now) - sint (StartTime
        \<lparr>StartTime = 1554076800000, MachineID = 34, Sequence = 0, lastTimestamp = 0\<rparr>
        )
            \<le> 145923200000"
      using built_generator_tick by (simp only: set_replicate_conv_if) simp
    show "sint (lastTimestamp
        \<lparr>StartTime = 1554076800000, MachineID = 34, Sequence = 0, lastTimestamp = 0\<rparr>
        ) \<le> 145923200000 + int 0"
      by simp
    show "145923200000 + int 0 + int (length ?nows) < 2 ^ 42"
      by (simp only: length_replicate) simp
  qed
  then have all: "length ?ids = 4097"
    by (simp only: length_replicate)
  then have "0 + 4096 \<le> (4096 :: nat) \<and> 4096 < length ?ids"
    by simp
  with NextID_sequence_rollover [OF built_generator len, of "Now 1700000000000000001 2000"]
  have "fst (DecomposeParts (?ids ! 0)) < fst (DecomposeParts (?ids ! 4096))"
    by blast
  with built_generator len all show ?thesis
    by (intro conjI)
qed

end
